theory Spec2Isabelle
  imports Complex_Main "HOL-Library.Sublist"
begin

section \<open>Strings, exceptions and the trace of effects\<close>

text \<open>
  The script drives a browser through Playwright, draws random data and appends to a CSV
  file. Every call that leaves the program (a Playwright call, the file system, the
  console, the random generators) is answered here by an explicit environment value, so
  that each branch of the source, also each \<^verbatim>\<open>except\<close>, is a branch of a HOL function.
  Only subclasses of Python's \<^verbatim>\<open>Exception\<close> are modelled: an asynchronous
  \<^verbatim>\<open>KeyboardInterrupt\<close> ends the process and is outside the model.
\<close>

fun contains :: "string \<Rightarrow> string \<Rightarrow> bool" where
  "contains needle [] = (needle = [])"
| "contains needle (c # cs) = (prefix needle (c # cs) \<or> contains needle cs)"

definition ascii_lowercase :: string where
  "ascii_lowercase = ''abcdefghijklmnopqrstuvwxyz''"

definition ascii_uppercase :: string where
  "ascii_uppercase = ''ABCDEFGHIJKLMNOPQRSTUVWXYZ''"

definition ascii_letters :: string where
  "ascii_letters = ascii_lowercase @ ascii_uppercase"

definition digits :: string where
  "digits = ''0123456789''"

definition isupper :: "char \<Rightarrow> bool" where
  "isupper c = (c \<in> set ascii_uppercase)"

definition islower :: "char \<Rightarrow> bool" where
  "islower c = (c \<in> set ascii_lowercase)"

definition isdigit :: "char \<Rightarrow> bool" where
  "isdigit c = (c \<in> set digits)"

text \<open>
  \<^verbatim>\<open>str.lower()\<close>. A Python string is modelled by its UTF-8 bytes. The ASCII capitals
  are lowered one by one. Two characters outside ASCII have a lower-case form that
  holds an ASCII letter, and are lowered as Python does: the Kelvin sign U+212A (bytes
  E2 84 AA) becomes \<^verbatim>\<open>k\<close>, and the dotted capital I U+0130 (bytes C4 B0) becomes
  \<^verbatim>\<open>i\<close> followed by the combining dot U+0307 (bytes CC 87). Every other character
  has a lower-case form without ASCII characters and is left as it is; the code reads
  the lowered text only to look for ASCII words in it, and these bytes decide no such
  test.
\<close>

definition lower_char :: "char \<Rightarrow> char" where
  "lower_char c = (case map_of (zip ascii_uppercase ascii_lowercase) c of Some l \<Rightarrow> l | None \<Rightarrow> c)"

fun lower :: "string \<Rightarrow> string" where
  "lower [] = []"
| "lower [a] = [lower_char a]"
| "lower [a, b] =
     (if a = CHR 0xC4 \<and> b = CHR 0xB0 then [CHR ''i'', CHR 0xCC, CHR 0x87]
      else [lower_char a, lower_char b])"
| "lower (a # b # c # cs) =
     (if a = CHR 0xE2 \<and> b = CHR 0x84 \<and> c = CHR 0xAA then CHR ''k'' # lower cs
      else if a = CHR 0xC4 \<and> b = CHR 0xB0 then CHR ''i'' # CHR 0xCC # CHR 0x87 # lower (c # cs)
      else lower_char a # lower (b # c # cs))"

text \<open>
  An exception value: the handler that catches it is chosen by its class, the notes tag
  reads \<^verbatim>\<open>type(e).__name__\<close> and the orchestrator reads \<^verbatim>\<open>str(e)\<close>.
\<close>

datatype exn_class = PlaywrightTimeoutError | IOError | OtherException

datatype exn = Exn (exn_class: exn_class) (type_name: string) (message: string)

datatype level = DEBUG | INFO | WARNING | ERROR

datatype locator =
    CountryInput | FirstNameInput | LastNameInput | EmailInput | PasswordInput
  | ConfirmPassInput | CreateButton | CountryOption string | PhoneInput | SendCodeButton
  | PopupSelector nat

text \<open>
  The call sites that can raise. Numbers tell apart the sites of one call: the attempt
  number of \<^verbatim>\<open>robust_goto\<close>, the first try (1) and the retry (2) of context creation,
  the browser shutdown and launch inside \<^verbatim>\<open>new_context\<close> (1) and inside the handler of
  \<^verbatim>\<open>run_single_account\<close> (2), the first and second read of \<^verbatim>\<open>page.content()\<close>.
  The country field is clicked at two places, by the typed strategy (\<open>Click\<close>) and by
  the scripted one (\<open>ClickForScript\<close>).
\<close>

datatype action =
    Click locator
  | ClickForScript locator
  | FillText locator string
  | TypeChar locator nat char
  | WaitVisible locator
  | Count locator
  | Goto nat
  | GotoNetworkIdle nat
  | EvaluateOptimize nat
  | EvaluateCountryScript
  | PostSubmitNetworkIdle
  | Content nat
  | BrowserNewContext nat
  | ContextRoute nat
  | ContextNewPage
  | ContextClose
  | BrowserClose nat
  | ChromiumLaunch nat
  | ConsoleInput

type_synonym rowdict = "(string \<times> string) list"

text \<open>
  The trace: every external call made (whether it then raised is the environment's
  answer), the \<^verbatim>\<open>time.sleep\<close> durations of the back-off and of the phone step, the log
  lines the properties speak of, and each invocation of the output writer. The cosmetic
  \<^verbatim>\<open>jitter_sleep\<close> pauses between form actions and the remaining log lines change no
  control flow and are left out of the trace.
\<close>

datatype event =
    Call action
  | Sleep real
  | Log level string
  | WriteRowCall rowdict

section \<open>DataGenerator: the password\<close>

definition specials :: string where
  "specials = ''!@#$%&*()_+-=<>?@!$!''"

text \<open>
  The random draws of \<^verbatim>\<open>_generate_strong_password\<close>: the \<^verbatim>\<open>base_len\<close> characters
  chosen by \<^verbatim>\<open>secrets.choice\<close>, the digit \<^verbatim>\<open>random.randint(1,9)\<close>, the
  \<^verbatim>\<open>num_specials\<close> special characters and the insert position.
\<close>

record pw_draws =
  base_draw :: string
  digit_draw :: nat
  specials_draw :: string
  insert_draw :: nat

text \<open>\<^verbatim>\<open>str(n)\<close> for the one-digit \<^verbatim>\<open>n\<close> that \<^verbatim>\<open>randint(1,9)\<close> returns.\<close>

definition str_digit :: "nat \<Rightarrow> string" where
  "str_digit n = [digits ! n]"

text \<open>Lines 161 to 163, the three fix-ups in the source's order.\<close>

definition ensure_complexity :: "string \<Rightarrow> nat \<Rightarrow> string" where
  "ensure_complexity base0 d =
     (let base1 = (if \<not> list_ex isupper base0 then CHR ''S'' # drop 1 base0 else base0);
          base2 = (if \<not> list_ex islower base1 then butlast base1 @ ''a'' else base1);
          base3 = (if \<not> list_ex isdigit base2 then base2 @ str_digit d else base2)
      in base3)"

definition generate_strong_password :: "pw_draws \<Rightarrow> string" where
  "generate_strong_password d =
     (let base = ensure_complexity (base_draw d) (digit_draw d);
          password = take (insert_draw d) base @ specials_draw d @ drop (insert_draw d) base
      in take 18 password)"

text \<open>The ranges the random calls draw from.\<close>

definition valid_pw_draws :: "pw_draws \<Rightarrow> bool" where
  "valid_pw_draws d =
     (8 \<le> length (base_draw d) \<and> length (base_draw d) \<le> 11
      \<and> list_all (\<lambda>c. c \<in> set (ascii_letters @ digits)) (base_draw d)
      \<and> 1 \<le> digit_draw d \<and> digit_draw d \<le> 9
      \<and> 3 \<le> length (specials_draw d) \<and> length (specials_draw d) \<le> 6
      \<and> list_all (\<lambda>c. c \<in> set specials) (specials_draw d)
      \<and> 1 \<le> insert_draw d
      \<and> insert_draw d \<le> max 1 (length (ensure_complexity (base_draw d) (digit_draw d)) - 1))"

section \<open>CsvOutputWriter\<close>

text \<open>
  The output file is \<open>None\<close> while the path does not exist, and otherwise the rows it
  holds. The environment says whether \<^verbatim>\<open>open\<close> raises and whether the write raises.
\<close>

type_synonym csv_file = "string list list option"

record csv_io =
  open_raises :: "exn option"
  write_raises :: "exn option"

text \<open>
  \<^verbatim>\<open>DictWriter._dict_to_list\<close> with the default \<^verbatim>\<open>extrasaction='raise'\<close> and
  \<^verbatim>\<open>restval=''\<close>: a key outside the field names is a \<^verbatim>\<open>ValueError\<close>, a missing key
  an empty cell.
\<close>

definition dict_to_list :: "string list \<Rightarrow> rowdict \<Rightarrow> exn + string list" where
  "dict_to_list fieldnames d =
     (if list_ex (\<lambda>k. k \<notin> set fieldnames) (map fst d)
      then Inl (Exn OtherException ''ValueError'' ''dict contains fields not in fieldnames'')
      else Inr (map (\<lambda>k. case map_of d k of Some v \<Rightarrow> v | None \<Rightarrow> '''') fieldnames))"

text \<open>
  \<^verbatim>\<open>_initialize_file\<close>: nothing when the path exists; otherwise \<^verbatim>\<open>open(..., "w")\<close>
  creates the file and the header is written. An exception is logged (when it is an
  \<^verbatim>\<open>IOError\<close>) and raised again: the third component.
\<close>

definition initialize_file ::
  "string list \<Rightarrow> csv_io \<Rightarrow> csv_file \<Rightarrow> event list \<times> csv_file \<times> exn option" where
  "initialize_file fieldnames io f =
     (case f of
        Some rows \<Rightarrow> ([], f, None)
      | None \<Rightarrow>
          (case open_raises io of
             Some e \<Rightarrow>
               (if exn_class e = IOError then [Log ERROR ''Failed to initialize CSV file: %s''] else [],
                None, Some e)
           | None \<Rightarrow>
               (case write_raises io of
                  Some e \<Rightarrow>
                    (if exn_class e = IOError then [Log ERROR ''Failed to initialize CSV file: %s''] else [],
                     Some [], Some e)
                | None \<Rightarrow> ([], Some [fieldnames], None))))"

text \<open>
  The \<^verbatim>\<open>try\<close> body of \<^verbatim>\<open>write_row\<close>: \<^verbatim>\<open>open(..., "a")\<close> creates a missing file,
  then one row is appended. The second component is the exception the body raises.
\<close>

definition file_rows :: "csv_file \<Rightarrow> string list list" where
  "file_rows f = (case f of None \<Rightarrow> [] | Some rs \<Rightarrow> rs)"

definition append_row ::
  "string list \<Rightarrow> csv_io \<Rightarrow> rowdict \<Rightarrow> csv_file \<Rightarrow> csv_file \<times> exn option" where
  "append_row fieldnames io d f =
     (case open_raises io of
        Some e \<Rightarrow> (f, Some e)
      | None \<Rightarrow>
          (case dict_to_list fieldnames d of
             Inl e \<Rightarrow> (Some (file_rows f), Some e)
           | Inr r \<Rightarrow>
               (case write_raises io of
                  Some e \<Rightarrow> (Some (file_rows f), Some e)
                | None \<Rightarrow> (Some (file_rows f @ [r]), None))))"

text \<open>
  \<^verbatim>\<open>write_row\<close>: both \<^verbatim>\<open>except\<close> clauses log and fall through, so the function
  returns the trace and the file, and has no exception result.
\<close>

definition write_row ::
  "string list \<Rightarrow> csv_io \<Rightarrow> rowdict \<Rightarrow> csv_file \<Rightarrow> event list \<times> csv_file" where
  "write_row fieldnames io d f =
     (case append_row fieldnames io d f of
        (f', None) \<Rightarrow> ([], f')
      | (f', Some e) \<Rightarrow>
          (if exn_class e = IOError
           then ([Log ERROR ''Failed to write row to CSV: %s''], f')
           else ([Log ERROR ''Unhandled error writing CSV row: %s''], f')))"

section \<open>Configuration and account data\<close>

text \<open>
  The fields of \<^verbatim>\<open>BotConfig\<close> that the modelled code reads, and the values its class
  body gives them. The time-outs are passed on to Playwright and decide nothing here.
\<close>

record config =
  SIGNUP_URL :: string
  HEADLESS :: bool
  MAX_NAV_RETRIES :: int
  KEEP_BROWSER_OPEN_ON_SUCCESS :: bool
  CSV_FIELDS :: "string list"

definition BotConfig :: config where
  "BotConfig =
     \<lparr>SIGNUP_URL = ''https://app.calebandbrown.com/signup'',
      HEADLESS = False,
      MAX_NAV_RETRIES = 3,
      KEEP_BROWSER_OPEN_ON_SUCCESS = False,
      CSV_FIELDS = [''timestamp'', ''phone_used'', ''email'', ''password'',
                    ''first_name'', ''last_name'', ''country'', ''notes'']\<rparr>"

record account_data =
  first_name :: string
  last_name :: string
  email :: string
  password :: string
  country :: string
  phone :: "string option"
  timestamp :: string

text \<open>
  What \<^verbatim>\<open>generate_account_data\<close> takes from outside: Faker's names, the e-mail
  pattern and the country chosen by \<^verbatim>\<open>random\<close> (the country list of the configuration
  is not empty), the password draws and the clock.
\<close>

record gen_draws =
  fake_first_name :: string
  fake_last_name :: string
  email_draw :: string
  password_draws :: pw_draws
  country_draw :: string
  utcnow :: string

definition generate_account_data :: "gen_draws \<Rightarrow> string option \<Rightarrow> account_data" where
  "generate_account_data g phone_number =
     \<lparr>first_name = fake_first_name g, last_name = fake_last_name g, email = email_draw g,
      password = generate_strong_password (password_draws g), country = country_draw g,
      phone = phone_number, timestamp = utcnow g @ ''Z''\<rparr>"

section \<open>The environment of one attempt\<close>

text \<open>
  \<open>fails\<close> answers each call site: \<open>None\<close> when the call returns, the exception when it
  raises. The other fields are the values the calls return: \<^verbatim>\<open>loc.count()\<close> of the
  popup selectors, the result of the country script, \<^verbatim>\<open>page.content()\<close> at its two
  reads, \<^verbatim>\<open>page.url\<close>, \<^verbatim>\<open>random.uniform(0, 0.5)\<close> after the n-th page load, the
  file system's answers to the writer, the user agent of the device table and the
  generator's draws.
\<close>

record world =
  fails :: "action \<Rightarrow> exn option"
  popup_count :: "nat \<Rightarrow> nat"
  country_script_result :: bool
  page_content :: "nat \<Rightarrow> string"
  page_url :: string
  jitter :: "nat \<Rightarrow> real"
  csv :: csv_io
  desktop_chrome_user_agent :: string
  gen :: gen_draws

text \<open>
  Straight-line calls inside one \<^verbatim>\<open>try\<close>: each is made when all before it returned;
  the first that raises ends the block with its exception.
\<close>

fun attempt_all :: "(action \<Rightarrow> exn option) \<Rightarrow> action list \<Rightarrow> event list \<times> exn option" where
  "attempt_all f [] = ([], None)"
| "attempt_all f (a # as) =
     (case f a of
        Some e \<Rightarrow> ([Call a], Some e)
      | None \<Rightarrow> (case attempt_all f as of (evs, r) \<Rightarrow> (Call a # evs, r)))"

text \<open>\<^verbatim>\<open>for ch in text: locator.type(ch, ...)\<close>: one call per character, in order.\<close>

definition type_chars :: "locator \<Rightarrow> string \<Rightarrow> action list" where
  "type_chars loc text = map (\<lambda>(i, ch). TypeChar loc i ch) (enumerate 0 text)"

section \<open>BrowserManager\<close>

text \<open>
  The manager holds the browser (\<open>None\<close> before launch and after shutdown). A launched
  browser is numbered by the count of launches so far, so a relaunched browser differs
  from every earlier one.
\<close>

record browser_manager =
  browser :: "nat option"
  launched :: nat

record browser_context =
  viewport :: "nat \<times> nat"
  java_script_enabled :: "bool option"
  user_agent :: "string option"
  blocking :: bool

definition launch ::
  "world \<Rightarrow> nat \<Rightarrow> browser_manager \<Rightarrow> event list \<times> browser_manager \<times> exn option" where
  "launch w site bm =
     (case browser bm of
        Some b \<Rightarrow> ([], bm, None)
      | None \<Rightarrow>
          (case fails w (ChromiumLaunch site) of
             Some e \<Rightarrow>
               ([Call (ChromiumLaunch site), Log ERROR ''Failed to launch browser: %s''], bm, Some e)
           | None \<Rightarrow>
               ([Call (ChromiumLaunch site)],
                bm\<lparr>browser := Some (Suc (launched bm)), launched := Suc (launched bm)\<rparr>, None)))"

definition shutdown :: "world \<Rightarrow> nat \<Rightarrow> browser_manager \<Rightarrow> event list \<times> browser_manager" where
  "shutdown w site bm =
     (case browser bm of
        None \<Rightarrow> ([], bm)
      | Some b \<Rightarrow>
          (Call (BrowserClose site) #
             (case fails w (BrowserClose site) of
                None \<Rightarrow> [Log INFO ''Browser shut down.'']
              | Some e \<Rightarrow> [Log WARNING ''Exception while closing browser: %s'']),
           bm\<lparr>browser := None\<rparr>))"



record request =
  resource_type :: string
  url :: string



definition setup_request_blocking ::
  "world \<Rightarrow> nat \<Rightarrow> browser_context \<Rightarrow> event list \<times> browser_context" where
  "setup_request_blocking w site ctx =
     (case fails w (ContextRoute site) of
        None \<Rightarrow> ([Call (ContextRoute site)], ctx\<lparr>blocking := True\<rparr>)
      | Some e \<Rightarrow>
          ([Call (ContextRoute site), Log ERROR ''Failed to setup request blocking: %s''], ctx))"

definition new_context ::
  "world \<Rightarrow> browser_manager \<Rightarrow> event list \<times> browser_manager \<times> (exn + browser_context)" where
  "new_context w bm =
     (case browser bm of
        None \<Rightarrow>
          ([Log ERROR ''Browser not launched. Call launch() first.''], bm,
           Inl (Exn OtherException ''Exception'' ''BrowserNotLaunched''))
      | Some b \<Rightarrow>
          (case fails w (BrowserNewContext 1) of
             None \<Rightarrow>
               (case setup_request_blocking w 1
                       \<lparr>viewport = (1200, 820), java_script_enabled = Some True,
                        user_agent = Some (desktop_chrome_user_agent w), blocking = False\<rparr> of
                  (evs, ctx) \<Rightarrow> (Call (BrowserNewContext 1) # evs, bm, Inr ctx))
           | Some e \<Rightarrow>
               (case shutdown w 1 bm of
                  (evs1, bm1) \<Rightarrow>
                    (case launch w 1 bm1 of
                       (evs2, bm2, Some e2) \<Rightarrow>
                         (Call (BrowserNewContext 1) # Log ERROR ''Failed to create new context: %s''
                            # Log WARNING ''Attempting to relaunch browser...'' # evs1 @ evs2,
                          bm2, Inl e2)
                     | (evs2, bm2, None) \<Rightarrow>
                         (case fails w (BrowserNewContext 2) of
                            Some e3 \<Rightarrow>
                              (Call (BrowserNewContext 1) # Log ERROR ''Failed to create new context: %s''
                                 # Log WARNING ''Attempting to relaunch browser...'' # evs1 @ evs2
                                 @ [Call (BrowserNewContext 2)],
                               bm2, Inl e3)
                          | None \<Rightarrow>
                              (case setup_request_blocking w 2
                                      \<lparr>viewport = (1200, 820), java_script_enabled = None,
                                       user_agent = None, blocking = False\<rparr> of
                                 (evs3, ctx) \<Rightarrow>
                                   (Call (BrowserNewContext 1) # Log ERROR ''Failed to create new context: %s''
                                      # Log WARNING ''Attempting to relaunch browser...'' # evs1 @ evs2
                                      @ Call (BrowserNewContext 2) # evs3
                                      @ [Log INFO ''Successfully created context after relaunch.''],
                                    bm2, Inr ctx)))))))"

definition close_context :: "world \<Rightarrow> event list" where
  "close_context w =
     Call ContextClose #
       (case fails w ContextClose of
          None \<Rightarrow> []
        | Some e \<Rightarrow> [Log WARNING ''Exception while closing context: %s''])"

section \<open>Page objects\<close>

definition backoff :: "nat \<Rightarrow> int" where
  "backoff attempt = min (2 * int attempt) 8"

definition optimize_loaded_page :: "world \<Rightarrow> nat \<Rightarrow> event list" where
  "optimize_loaded_page w n =
     Call (EvaluateOptimize n) #
       (case fails w (EvaluateOptimize n) of
          None \<Rightarrow> []
        | Some e \<Rightarrow> [Log WARNING ''Failed to apply page optimizations: %s''])"

text \<open>
  The \<^verbatim>\<open>try\<close> body of one pass of the loop of \<^verbatim>\<open>robust_goto\<close>: the page load, the
  wait for network idle whose time-out alone is passed over, and the page clean-up that
  swallows its own errors. \<open>None\<close>: the body reached \<^verbatim>\<open>return True\<close>.
\<close>

definition goto_attempt :: "world \<Rightarrow> nat \<Rightarrow> event list \<times> exn option" where
  "goto_attempt w n =
     (case fails w (Goto n) of
        Some e \<Rightarrow> ([Call (Goto n)], Some e)
      | None \<Rightarrow>
          (case fails w (GotoNetworkIdle n) of
             None \<Rightarrow> (Call (Goto n) # Call (GotoNetworkIdle n) # optimize_loaded_page w n, None)
           | Some e \<Rightarrow>
               (if exn_class e = PlaywrightTimeoutError
                then (Call (Goto n) # Call (GotoNetworkIdle n) # optimize_loaded_page w n, None)
                else ([Call (Goto n), Call (GotoNetworkIdle n)], Some e))))"

text \<open>
  The two handlers of the loop. The loop runs over \<^verbatim>\<open>range(1, MAX_NAV_RETRIES + 1)\<close>:
  \<open>attempt\<close> is the loop variable and the third argument counts the passes left.
\<close>

definition goto_handler :: "world \<Rightarrow> nat \<Rightarrow> exn \<Rightarrow> event list" where
  "goto_handler w attempt e =
     (if exn_class e = PlaywrightTimeoutError
      then [Log WARNING ''Goto attempt %d timed out; backing off %ds'',
            Sleep (real_of_int (backoff attempt) + jitter w attempt)]
      else [Log ERROR ''Goto attempt %d error: %s'', Sleep (1 + jitter w attempt)])"

fun goto_loop :: "world \<Rightarrow> nat \<Rightarrow> nat \<Rightarrow> event list \<times> bool" where
  "goto_loop w attempt 0 =
     ([Log ERROR ''Navigation failed after %d attempts. Last error: %s''], False)"
| "goto_loop w attempt (Suc k) =
     (case goto_attempt w attempt of
        (evs, None) \<Rightarrow> (evs, True)
      | (evs, Some e) \<Rightarrow>
          (case goto_loop w (Suc attempt) k of
             (evs', r) \<Rightarrow> (evs @ goto_handler w attempt e @ evs', r)))"

definition robust_goto :: "config \<Rightarrow> world \<Rightarrow> event list \<times> bool" where
  "robust_goto cfg w = goto_loop w 1 (nat (MAX_NAV_RETRIES cfg))"

definition navigate :: "config \<Rightarrow> world \<Rightarrow> event list \<times> bool" where
  "navigate cfg w = robust_goto cfg w"

definition close_popup :: "world \<Rightarrow> nat \<Rightarrow> event list" where
  "close_popup w i =
     (case fails w (Count (PopupSelector i)) of
        Some e \<Rightarrow> [Call (Count (PopupSelector i))]
      | None \<Rightarrow>
          (if popup_count w i > 0
           then [Call (Count (PopupSelector i)), Call (Click (PopupSelector i))]
           else [Call (Count (PopupSelector i))]))"

definition close_common_popups :: "world \<Rightarrow> event list" where
  "close_common_popups w = concat (map (close_popup w) [0..<5])"

definition select_country_by_typing :: "world \<Rightarrow> string \<Rightarrow> event list \<times> bool" where
  "select_country_by_typing w c =
     (case attempt_all (fails w)
             ([Click CountryInput, FillText CountryInput []] @ type_chars CountryInput c
              @ [WaitVisible (CountryOption c), Click (CountryOption c)]) of
        (evs, None) \<Rightarrow> (evs, True)
      | (evs, Some e) \<Rightarrow> (evs, False))"

definition select_country_by_js :: "world \<Rightarrow> string \<Rightarrow> event list \<times> bool" where
  "select_country_by_js w c =
     (case attempt_all (fails w) [ClickForScript CountryInput, EvaluateCountryScript] of
        (evs, None) \<Rightarrow> (evs, country_script_result w)
      | (evs, Some e) \<Rightarrow> (evs, False))"

definition select_country :: "world \<Rightarrow> string \<Rightarrow> event list \<times> bool" where
  "select_country w c =
     (case select_country_by_typing w c of
        (evs1, ok1) \<Rightarrow>
          (if ok1 then (evs1 @ [Log INFO ''Country select OK (typing): %s''], True)
           else (case select_country_by_js w c of
                   (evs2, ok2) \<Rightarrow>
                     (if ok2 then (evs1 @ evs2 @ [Log INFO ''Country select OK (JS): %s''], True)
                      else (evs1 @ evs2 @ [Log WARNING ''Country select FAILED: %s''], False)))))"

text \<open>The five \<^verbatim>\<open>fill\<close> calls of \<^verbatim>\<open>fill_form\<close>, in the source's order.\<close>

definition form_fields :: "account_data \<Rightarrow> action list" where
  "form_fields d =
     [FillText FirstNameInput (first_name d), FillText LastNameInput (last_name d),
      FillText EmailInput (email d), FillText PasswordInput (password d),
      FillText ConfirmPassInput (password d)]"

definition fill_form :: "world \<Rightarrow> account_data \<Rightarrow> event list \<times> bool" where
  "fill_form w d =
     (case select_country w (country d) of
        (c_evs, selected) \<Rightarrow>
          (case attempt_all (fails w) (form_fields d) of
             (f_evs, r) \<Rightarrow>
               (close_common_popups w @ c_evs
                  @ (if \<not> selected then [Log WARNING ''Country selection failed, proceeding anyway...'']
                     else [])
                  @ f_evs
                  @ (case r of None \<Rightarrow> [] | Some e \<Rightarrow> [Log ERROR ''Failed to fill signup form: %s'']),
                r = None)))"

definition submit_form :: "world \<Rightarrow> event list \<times> bool" where
  "submit_form w =
     (case fails w (Click CreateButton) of
        None \<Rightarrow> ([Call (Click CreateButton), Log INFO ''Clicked Create account button.''], True)
      | Some e \<Rightarrow> ([Call (Click CreateButton), Log ERROR ''Error clicking Create account: %s''], False))"

text \<open>
  \<^verbatim>\<open>wait_for_page\<close> catches the time-out only; any other exception of the wait leaves
  the function.
\<close>

definition wait_for_page :: "world \<Rightarrow> event list \<times> (exn + bool)" where
  "wait_for_page w =
     (case fails w (WaitVisible PhoneInput) of
        None \<Rightarrow> ([Call (WaitVisible PhoneInput), Log INFO ''Phone verification page loaded.''], Inr True)
      | Some e \<Rightarrow>
          (if exn_class e = PlaywrightTimeoutError
           then ([Call (WaitVisible PhoneInput), Log WARNING ''Phone verification input not found.''],
                 Inr False)
           else ([Call (WaitVisible PhoneInput)], Inl e)))"

text \<open>
  The calls of the \<^verbatim>\<open>try\<close> body of \<^verbatim>\<open>submit_phone\<close>: the click on the phone field,
  the clearing, one \<^verbatim>\<open>type\<close> for each character, the click on the send button.
\<close>

definition phone_steps :: "string \<Rightarrow> action list" where
  "phone_steps phone_number =
     [Click PhoneInput, FillText PhoneInput []] @ type_chars PhoneInput phone_number
     @ [Click SendCodeButton]"

definition submit_phone :: "world \<Rightarrow> string \<Rightarrow> event list \<times> string" where
  "submit_phone w phone_number =
     (case attempt_all (fails w) (phone_steps phone_number) of
        (evs, None) \<Rightarrow>
          (evs @ [Log INFO ''Clicked Send code for phone %s. Waiting 10s...'', Sleep 10],
           ''send_code_clicked_waited_10s'')
      | (evs, Some e) \<Rightarrow>
          (evs @ [Log ERROR ''Error during phone verification step: %s''],
           ''phone_step_exception:'' @ type_name e))"

section \<open>AccountCreator\<close>

text \<open>
  How a block of code ends: it returns a value or an exception leaves it.
\<close>

datatype outcome = Returned bool | Raised exn

text \<open>Python's truth of \<^verbatim>\<open>data.phone\<close>: neither \<^verbatim>\<open>None\<close> nor the empty string.\<close>

definition phone_given :: "account_data \<Rightarrow> bool" where
  "phone_given d = (case phone d of None \<Rightarrow> False | Some p \<Rightarrow> p \<noteq> [])"

definition phone_or_empty :: "account_data \<Rightarrow> string" where
  "phone_or_empty d = (case phone d of None \<Rightarrow> [] | Some p \<Rightarrow> p)"

text \<open>
  Lines 610 to 626, the classification after a successful submit. The result is the
  trace, the value of \<^verbatim>\<open>notes\<close> when the block ends, and the exception that leaves it
  (\<^verbatim>\<open>notes\<close> is still the placeholder then).
\<close>

definition post_submit :: "config \<Rightarrow> world \<Rightarrow> account_data \<Rightarrow> event list \<times> string \<times> exn option" where
  "post_submit cfg w d =
     (if phone_given d then
        (case wait_for_page w of
           (evs, Inl e) \<Rightarrow> (evs, ''init'', Some e)
         | (evs, Inr found) \<Rightarrow>
             (if \<not> found then (evs, ''phone_input_not_found'', None)
              else (case submit_phone w (phone_or_empty d) of
                      (evs2, tag) \<Rightarrow> (evs @ evs2, tag, None))))
      else
        (case fails w (Content 1) of
           Some e \<Rightarrow> ([Call PostSubmitNetworkIdle, Call (Content 1)], ''init'', Some e)
         | None \<Rightarrow>
             (if contains ''verify'' (lower (page_content w 1))
              then ([Call PostSubmitNetworkIdle, Call (Content 1)],
                    ''verification_prompt_detected_no_phone'', None)
              else (case fails w (Content 2) of
                      Some e \<Rightarrow>
                        ([Call PostSubmitNetworkIdle, Call (Content 1), Call (Content 2)],
                         ''init'', Some e)
                    | None \<Rightarrow>
                        ([Call PostSubmitNetworkIdle, Call (Content 1), Call (Content 2)],
                         (if contains ''check your email'' (lower (page_content w 2))
                          then ''verification_prompt_detected_no_phone''
                          else if page_url w \<noteq> SIGNUP_URL cfg
                          then ''navigated_to:'' @ takeWhile (\<lambda>c. c \<noteq> CHR ''?'') (page_url w)
                          else ''unknown_post_submit_state_no_phone''),
                         None)))))"

definition keep_open :: "config \<Rightarrow> bool" where
  "keep_open cfg = (KEEP_BROWSER_OPEN_ON_SUCCESS cfg \<and> \<not> HEADLESS cfg)"

text \<open>
  Lines 630 to 636: the pause on success, which waits for the console. \<^verbatim>\<open>input()\<close>
  returns, or raises \<^verbatim>\<open>EOFError\<close> when the console is closed.
\<close>

definition pause_or_continue :: "config \<Rightarrow> world \<Rightarrow> event list \<times> outcome" where
  "pause_or_continue cfg w =
     (if keep_open cfg then
        (case fails w ConsoleInput of
           None \<Rightarrow> ([Log WARNING ''%s KEEP_BROWSER_OPEN is True. Pausing execution.'', Call ConsoleInput],
                     Returned False)
         | Some e \<Rightarrow> ([Log WARNING ''%s KEEP_BROWSER_OPEN is True. Pausing execution.'', Call ConsoleInput],
                       Raised (Exn OtherException ''EOFError'' ''EOF when reading a line'')))
      else ([], Returned True))"

text \<open>
  Lines 595 to 636, the \<^verbatim>\<open>try\<close> body once the page exists: trace, \<^verbatim>\<open>notes\<close> and how
  the body ends.
\<close>

definition flow :: "config \<Rightarrow> world \<Rightarrow> account_data \<Rightarrow> event list \<times> string \<times> outcome" where
  "flow cfg w d =
     (case navigate cfg w of
        (n_evs, nav_ok) \<Rightarrow>
          (if \<not> nav_ok
           then (n_evs, ''nav_failed'', Raised (Exn OtherException ''Exception'' ''NavigationFailed''))
           else (case fill_form w d of
                   (f_evs, fill_ok) \<Rightarrow>
                     (if \<not> fill_ok
                      then (n_evs @ f_evs, ''form_fill_failed'',
                            Raised (Exn OtherException ''Exception'' ''FormFillFailed''))
                      else (case submit_form w of
                              (s_evs, submit_ok) \<Rightarrow>
                                (if \<not> submit_ok
                                 then (n_evs @ f_evs @ s_evs, ''submit_failed'',
                                       Raised (Exn OtherException ''Exception'' ''SubmitFailed''))
                                 else (case post_submit cfg w d of
                                         (p_evs, notes, Some e) \<Rightarrow>
                                           (n_evs @ f_evs @ s_evs @ p_evs, notes, Raised e)
                                       | (p_evs, notes, None) \<Rightarrow>
                                           (case pause_or_continue cfg w of
                                              (k_evs, res) \<Rightarrow>
                                                (n_evs @ f_evs @ s_evs @ p_evs @ k_evs, notes, res)))))))))"

text \<open>
  Lines 591 to 636, the whole \<^verbatim>\<open>try\<close> body: trace, manager, the context (when one was
  created), \<^verbatim>\<open>notes\<close> and how the body ends. The constructors of the page objects only
  build locators and set a default time-out, without a round trip to the browser, and
  are not call sites.
\<close>

definition try_body ::
  "config \<Rightarrow> world \<Rightarrow> account_data \<Rightarrow> browser_manager
     \<Rightarrow> event list \<times> browser_manager \<times> browser_context option \<times> string \<times> outcome" where
  "try_body cfg w d bm =
     (case new_context w bm of
        (c_evs, bm1, Inl e) \<Rightarrow> (c_evs, bm1, None, ''init'', Raised e)
      | (c_evs, bm1, Inr ctx) \<Rightarrow>
          (case fails w ContextNewPage of
             Some e \<Rightarrow> (c_evs @ [Call ContextNewPage], bm1, Some ctx, ''init'', Raised e)
           | None \<Rightarrow>
               (case flow cfg w d of
                  (evs, notes, res) \<Rightarrow>
                    (c_evs @ Call ContextNewPage # evs, bm1, Some ctx, notes, res))))"

definition browser_closed :: "exn \<Rightarrow> bool" where
  "browser_closed e =
     (contains ''Target closed'' (message e) \<or> contains ''Browser has been closed'' (message e))"

text \<open>
  Lines 638 to 647, the \<^verbatim>\<open>except Exception\<close> clause. The relaunch comes first; an
  exception of \<^verbatim>\<open>launch\<close> leaves the clause before \<^verbatim>\<open>notes\<close> is looked at. The result
  is the trace, the manager, \<^verbatim>\<open>notes\<close> and the exception that leaves the clause.
\<close>

definition handler ::
  "world \<Rightarrow> browser_manager \<Rightarrow> string \<Rightarrow> exn
     \<Rightarrow> event list \<times> browser_manager \<times> string \<times> exn option" where
  "handler w bm notes e =
     (if browser_closed e then
        (case shutdown w 2 bm of
           (s_evs, bm1) \<Rightarrow>
             (case launch w 2 bm1 of
                (l_evs, bm2, Some e2) \<Rightarrow>
                  (Log ERROR ''%s Critical Playwright error: %s. Relaunching browser.'' # s_evs @ l_evs,
                   bm2, notes, Some e2)
              | (l_evs, bm2, None) \<Rightarrow>
                  (Log ERROR ''%s Critical Playwright error: %s. Relaunching browser.'' # s_evs @ l_evs,
                   bm2, (if notes = ''init'' then ''flow_exception:'' @ type_name e else notes), None)))
      else
        ([Log ERROR ''%s Unhandled exception in flow for %s: %s''], bm,
         (if notes = ''init'' then ''flow_exception:'' @ type_name e else notes), None))"

definition outcome_row :: "account_data \<Rightarrow> string \<Rightarrow> rowdict" where
  "outcome_row d notes =
     [(''timestamp'', timestamp d), (''phone_used'', phone_or_empty d),
      (''email'', email d), (''password'', password d),
      (''first_name'', first_name d), (''last_name'', last_name d),
      (''country'', country d), (''notes'', notes)]"

record state =
  manager :: browser_manager
  out_file :: csv_file
  account_index :: nat

text \<open>
  \<^verbatim>\<open>run_single_account\<close>: the body, the handler when the body raised, then the
  \<^verbatim>\<open>finally\<close> clause (the row, and the context closed unless the browser is kept open).
  The function returns the body's value, or \<^verbatim>\<open>True\<close> after a handled exception, or the
  exception that left the handler.
\<close>

definition run_single_account ::
  "config \<Rightarrow> world \<Rightarrow> string option \<Rightarrow> state \<Rightarrow> event list \<times> state \<times> outcome" where
  "run_single_account cfg w phone_number st =
     (let d = generate_account_data (gen w) phone_number in
      case try_body cfg w d (manager st) of
        (b_evs, bm1, ctx, notes, res) \<Rightarrow>
          (case (case res of
                   Returned b \<Rightarrow> ([], bm1, notes, Returned b)
                 | Raised e \<Rightarrow>
                     (case handler w bm1 notes e of
                        (h_evs, bm2, notes2, None) \<Rightarrow> (h_evs, bm2, notes2, Returned True)
                      | (h_evs, bm2, notes2, Some e2) \<Rightarrow> (h_evs, bm2, notes2, Raised e2))) of
             (h_evs, bm2, notes2, result) \<Rightarrow>
               (case write_row (CSV_FIELDS cfg) (csv w) (outcome_row d notes2) (out_file st) of
                  (w_evs, file') \<Rightarrow>
                    (b_evs @ h_evs @ WriteRowCall (outcome_row d notes2) # w_evs
                       @ (if ctx \<noteq> None \<and> \<not> keep_open cfg then close_context w else []),
                     \<lparr>manager = bm2, out_file = file', account_index = Suc (account_index st)\<rparr>,
                     result))))"

text \<open>
  How \<^verbatim>\<open>run\<close> ends: the loop ran to its end, the \<^verbatim>\<open>break\<close> after a pause on
  success was taken, or an exception left \<^verbatim>\<open>run_single_account\<close> and so \<^verbatim>\<open>run\<close>.
\<close>

datatype batch_end = Completed | Stopped | Aborted exn

text \<open>
  \<^verbatim>\<open>run\<close>. The attempt that starts when \<^verbatim>\<open>account_index\<close> is \<open>i\<close> meets the environment
  \<open>ws i\<close>.
\<close>

fun run_loop ::
  "config \<Rightarrow> (nat \<Rightarrow> world) \<Rightarrow> string list \<Rightarrow> state \<Rightarrow> event list \<times> state \<times> batch_end" where
  "run_loop cfg ws [] st = ([], st, Completed)"
| "run_loop cfg ws (p # ps) st =
     (case run_single_account cfg (ws (account_index st)) (Some p) st of
        (evs, st1, Raised e) \<Rightarrow> (evs, st1, Aborted e)
      | (evs, st1, Returned continue_loop) \<Rightarrow>
          (if \<not> continue_loop then (evs @ [Log INFO ''Stopping loop (KEEP_BROWSER_OPEN).''], st1, Stopped)
           else (case run_loop cfg ws ps st1 of
                   (evs2, st2, r) \<Rightarrow> (evs @ evs2, st2, r))))"

definition run ::
  "config \<Rightarrow> (nat \<Rightarrow> world) \<Rightarrow> string list \<Rightarrow> state \<Rightarrow> event list \<times> state \<times> batch_end" where
  "run cfg ws phone_numbers st =
     (if phone_numbers = [] then
        (case run_single_account cfg (ws (account_index st)) None st of
           (evs, st1, Raised e) \<Rightarrow> (evs, st1, Aborted e)
         | (evs, st1, Returned b) \<Rightarrow> (evs, st1, Completed))
      else run_loop cfg ws phone_numbers st)"

text \<open>The rows handed to the output writer, in order.\<close>

fun rows_written :: "event list \<Rightarrow> rowdict list" where
  "rows_written [] = []"
| "rows_written (WriteRowCall r # evs) = r # rows_written evs"
| "rows_written (ev # evs) = rows_written evs"

text \<open>The durations slept, in order, and the external calls made, in order.\<close>

fun sleeps :: "event list \<Rightarrow> real list" where
  "sleeps [] = []"
| "sleeps (Sleep t # evs) = t # sleeps evs"
| "sleeps (ev # evs) = sleeps evs"


text \<open>The attempt numbers of the page loads made, in order.\<close>

fun gotos :: "event list \<Rightarrow> nat list" where
  "gotos [] = []"
| "gotos (Call (Goto n) # evs) = n # gotos evs"
| "gotos (ev # evs) = gotos evs"

text \<open>Whether the n-th pass of the loop of \<^verbatim>\<open>robust_goto\<close> fails, and whether by a time-out.\<close>

definition goto_fails :: "world \<Rightarrow> nat \<Rightarrow> bool" where
  "goto_fails w n = (snd (goto_attempt w n) \<noteq> None)"

definition timed_out :: "world \<Rightarrow> nat \<Rightarrow> bool" where
  "timed_out w n =
     (case snd (goto_attempt w n) of
        None \<Rightarrow> False
      | Some e \<Rightarrow> exn_class e = PlaywrightTimeoutError)"


text \<open>
  The kinds of notes the specification lists: the three stage tags, the tags of the
  classification after the submit, the tags of the phone step, the tag of an exception
  of the flow. \<open>tag_kinds\<close> says, kind by kind, whether a value of \<^verbatim>\<open>notes\<close> is of it.
\<close>

definition classification_tag :: "string \<Rightarrow> bool" where
  "classification_tag n =
     (n = ''verification_prompt_detected_no_phone'' \<or> prefix ''navigated_to:'' n
      \<or> n = ''unknown_post_submit_state_no_phone'')"

definition phone_tag :: "string \<Rightarrow> bool" where
  "phone_tag n =
     (n = ''phone_input_not_found'' \<or> n = ''send_code_clicked_waited_10s''
      \<or> prefix ''phone_step_exception:'' n)"

definition flow_exception_tag :: "string \<Rightarrow> bool" where
  "flow_exception_tag n = prefix ''flow_exception:'' n"

definition tag_kinds :: "string \<Rightarrow> bool list" where
  "tag_kinds n =
     [n = ''nav_failed'', n = ''form_fill_failed'', n = ''submit_failed'',
      classification_tag n, phone_tag n, flow_exception_tag n]"

definition one_tag :: "string \<Rightarrow> bool" where
  "one_tag n = (length (filter id (tag_kinds n)) = 1 \<and> n \<noteq> ''init'' \<and> n \<noteq> [])"

section \<open>Sample inputs\<close>

text \<open>
  Concrete inputs at which the theorems below are instantiated: an environment in which
  no call raises, one generated account, and a file system that accepts every write.
\<close>

definition healthy_io :: csv_io where
  "healthy_io = \<lparr>open_raises = None, write_raises = None\<rparr>"

definition denied_io :: csv_io where
  "denied_io =
     \<lparr>open_raises = Some (Exn IOError ''PermissionError'' ''Permission denied''),
      write_raises = None\<rparr>"

definition sample_draws :: gen_draws where
  "sample_draws =
     \<lparr>fake_first_name = ''Ada'', fake_last_name = ''Lovelace'',
      email_draw = ''ada.lovelace42@gmail.com'',
      password_draws =
        \<lparr>base_draw = ''abcDEF12'', digit_draw = 7, specials_draw = ''!@#'', insert_draw = 2\<rparr>,
      country_draw = ''Egypt'', utcnow = ''2024-01-01T00:00:00''\<rparr>"

definition sample_row :: rowdict where
  "sample_row = outcome_row (generate_account_data sample_draws None) ''nav_failed''"

definition quiet_world :: world where
  "quiet_world =
     \<lparr>fails = (\<lambda>a. None), popup_count = (\<lambda>i. 0), country_script_result = True,
      page_content = (\<lambda>i. ''<html>Welcome</html>''),
      page_url = ''https://app.calebandbrown.com/signup'',
      jitter = (\<lambda>n. 1 / 4), csv = healthy_io,
      desktop_chrome_user_agent = ''Mozilla/5.0 (Windows NT 10.0; Win64; x64) Chrome/120.0 Safari/537.36'',
      gen = sample_draws\<rparr>"

text \<open>Every page load times out.\<close>

definition offline_world :: world where
  "offline_world =
     quiet_world\<lparr>fails :=
       (\<lambda>a. case a of
               Goto n \<Rightarrow> Some (Exn PlaywrightTimeoutError ''TimeoutError'' ''Timeout 45000ms exceeded.'')
             | _ \<Rightarrow> None)\<rparr>"


text \<open>
  The browser dies while the page is opened, and it cannot be launched again.
\<close>

definition crash_world :: world where
  "crash_world =
     quiet_world\<lparr>fails :=
       (\<lambda>a. if a = ContextNewPage then Some (Exn OtherException ''Error'' ''Target closed'')
             else if a = ChromiumLaunch 2
             then Some (Exn OtherException ''Error'' ''Failed to launch chromium'')
             else None)\<rparr>"

text \<open>
  The state in which \<^verbatim>\<open>main\<close> calls \<^verbatim>\<open>run\<close>: the browser launched once, the output
  file holding its header.
\<close>

definition initial_state :: state where
  "initial_state =
     \<lparr>manager = \<lparr>browser = Some 1, launched = 1\<rparr>,
      out_file = Some [CSV_FIELDS BotConfig], account_index = 0\<rparr>"





text \<open>The first creation of a context fails; the relaunch and the retry succeed.\<close>

definition flaky_context_world :: world where
  "flaky_context_world =
     quiet_world\<lparr>fails :=
       (\<lambda>a. if a = BrowserNewContext 1
             then Some (Exn OtherException ''Error'' ''Browser.new_context: Connection closed'')
             else None)\<rparr>"

text \<open>The second page load fails with a network error, the others time out.\<close>

definition mixed_failure_world :: world where
  "mixed_failure_world =
     quiet_world\<lparr>fails :=
       (\<lambda>a. if a = Goto 2 then Some (Exn OtherException ''Error'' ''net::ERR_CONNECTION_RESET'')
             else case a of
                    Goto n \<Rightarrow> Some (Exn PlaywrightTimeoutError ''TimeoutError'' ''Timeout 45000ms exceeded.'')
                  | _ \<Rightarrow> None)\<rparr>"

text \<open>
  Five retries are configured and every page load times out; the jitter drawn after
  the fourth load is 0.5 and every other is 0.
\<close>

definition five_retries :: config where
  "five_retries = BotConfig\<lparr>MAX_NAV_RETRIES := 5\<rparr>"

definition late_jitter_world :: world where
  "late_jitter_world = offline_world\<lparr>jitter := (\<lambda>n. if n = 4 then 1 / 2 else 0)\<rparr>"

section \<open>Properties of the password generator\<close>

lemma isdigit_nth: "d \<le> 9 \<Longrightarrow> isdigit (digits ! d)"
proof -
  assume "d \<le> 9"
  then have "d < length digits" by (simp add: digits_def)
  then show ?thesis unfolding isdigit_def by (rule nth_mem)
qed

lemma islower_a: "islower CHR ''a''"
  by (simp add: islower_def ascii_lowercase_def)

lemma ensure_complexity_length:
  "length base0 \<le> length (ensure_complexity base0 d)
     \<and> length (ensure_complexity base0 d) \<le> Suc (length base0)"
  if "base0 \<noteq> []"
  using that by (cases base0) (auto simp: ensure_complexity_def Let_def str_digit_def)

lemma ensure_complexity_lower: "list_ex islower (ensure_complexity base0 d)"
  by (auto simp: ensure_complexity_def Let_def list_ex_iff islower_a)

lemma ensure_complexity_digit: "d \<le> 9 \<Longrightarrow> list_ex isdigit (ensure_complexity base0 d)"
  by (auto simp: ensure_complexity_def Let_def list_ex_iff str_digit_def isdigit_nth)

text \<open>
  What the generator does guarantee for every draw: the length between 11 and 18 (the
  cap at 18 never cuts), a lowercase letter, a digit and at least three special
  characters.
\<close>

lemma generate_strong_password_guarantees:
  assumes "valid_pw_draws d"
  shows "11 \<le> length (generate_strong_password d) \<and> length (generate_strong_password d) \<le> 18
    \<and> list_ex islower (generate_strong_password d)
    \<and> list_ex isdigit (generate_strong_password d)
    \<and> 3 \<le> length (filter (\<lambda>c. c \<in> set specials) (generate_strong_password d))"
proof -
  define base where "base = ensure_complexity (base_draw d) (digit_draw d)"
  define pw where "pw = take (insert_draw d) base @ specials_draw d @ drop (insert_draw d) base"
  from assms have v: "8 \<le> length (base_draw d)" "length (base_draw d) \<le> 11" "digit_draw d \<le> 9"
    "3 \<le> length (specials_draw d)" "length (specials_draw d) \<le> 6"
    "list_all (\<lambda>c. c \<in> set specials) (specials_draw d)"
    by (simp_all add: valid_pw_draws_def)
  from v(1) have ne: "base_draw d \<noteq> []" by auto
  from ensure_complexity_length[OF ne, of "digit_draw d"] v
  have lb: "8 \<le> length base" "length base \<le> 12" by (simp_all add: base_def)
  have len: "length pw = length base + length (specials_draw d)"
    by (simp add: pw_def)
  with lb v have l18: "length pw \<le> 18" "11 \<le> length pw" by simp_all
  have "generate_strong_password d = take 18 pw"
    by (simp add: generate_strong_password_def Let_def pw_def base_def)
  also have "\<dots> = pw" using l18 by simp
  finally have g: "generate_strong_password d = pw" .
  have sets: "set pw = set base \<union> set (specials_draw d)"
  proof -
    have "set pw = set (take (insert_draw d) base) \<union> set (drop (insert_draw d) base)
                     \<union> set (specials_draw d)"
      by (auto simp: pw_def)
    also have "set (take (insert_draw d) base) \<union> set (drop (insert_draw d) base) = set base"
      by (metis append_take_drop_id set_append)
    finally show ?thesis .
  qed
  have lo: "list_ex islower pw"
    using ensure_complexity_lower[of "base_draw d" "digit_draw d"]
    by (auto simp: list_ex_iff sets base_def)
  have di: "list_ex isdigit pw"
    using ensure_complexity_digit[OF v(3), of "base_draw d"]
    by (auto simp: list_ex_iff sets base_def)
  have "filter (\<lambda>c. c \<in> set specials) (specials_draw d) = specials_draw d"
    using v(6) by (simp add: list_all_iff)
  then have "length (specials_draw d) \<le> length (filter (\<lambda>c. c \<in> set specials) pw)"
    by (simp add: pw_def)
  with v(4) have sp: "3 \<le> length (filter (\<lambda>c. c \<in> set specials) pw)" by simp
  show ?thesis using l18 lo di sp by (simp add: g)
qed

text \<open>
  C9. Every generated password is said to hold an uppercase letter. The base
  \<^verbatim>\<open>1111111A\<close> is a draw of eight characters from the letters and digits; it has an
  uppercase letter, so the first fix-up leaves it alone; it has no lowercase letter, so
  the second fix-up replaces its last character, the only uppercase one, by \<^verbatim>\<open>a\<close>. The
  password built from it has no uppercase letter.
\<close>

theorem generate_strong_password_loses_uppercase:
  "valid_pw_draws \<lparr>base_draw = ''1111111A'', digit_draw = 5, specials_draw = ''!@#'', insert_draw = 1\<rparr>
   \<and> generate_strong_password
        \<lparr>base_draw = ''1111111A'', digit_draw = 5, specials_draw = ''!@#'', insert_draw = 1\<rparr>
      = ''1!@#111111a''
   \<and> list_ex isupper ''1!@#111111a'' = False"
  by (simp add: valid_pw_draws_def generate_strong_password_def ensure_complexity_def
      isupper_def islower_def isdigit_def ascii_uppercase_def ascii_lowercase_def
      ascii_letters_def digits_def specials_def)

section \<open>Properties of the output writer\<close>

lemma append_row_raises_iff:
  "(snd (append_row fieldnames io d f) \<noteq> None) =
     (open_raises io \<noteq> None \<or> write_raises io \<noteq> None
      \<or> list_ex (\<lambda>k. k \<notin> set fieldnames) (map fst d))"
  by (auto simp: append_row_def dict_to_list_def split: option.splits sum.splits)

text \<open>
  C10. Whatever exception the body of \<^verbatim>\<open>write_row\<close> raises while it opens the file or
  appends the row, \<^verbatim>\<open>write_row\<close> returns to its caller: it logs one error line and the
  file holds the rows it held before, so the row is lost.
\<close>

theorem write_row_swallows_exceptions:
  "snd (append_row fieldnames io d f) = Some e \<Longrightarrow>
     fst (write_row fieldnames io d f) =
       [Log ERROR (if exn_class e = IOError then ''Failed to write row to CSV: %s''
                   else ''Unhandled error writing CSV row: %s'')]
     \<and> file_rows (snd (write_row fieldnames io d f)) = file_rows f"
  by (auto simp: write_row_def append_row_def file_rows_def
      split: option.splits sum.splits prod.splits)

theorem write_row_swallows_exceptions_witness:
  "snd (append_row (CSV_FIELDS BotConfig) denied_io sample_row (Some [CSV_FIELDS BotConfig]))
     = Some (Exn IOError ''PermissionError'' ''Permission denied'')
   \<and> fst (write_row (CSV_FIELDS BotConfig) denied_io sample_row (Some [CSV_FIELDS BotConfig]))
     = [Log ERROR ''Failed to write row to CSV: %s'']
   \<and> file_rows (snd (write_row (CSV_FIELDS BotConfig) denied_io sample_row (Some [CSV_FIELDS BotConfig])))
     = [CSV_FIELDS BotConfig]"
proof -
  have h: "snd (append_row (CSV_FIELDS BotConfig) denied_io sample_row (Some [CSV_FIELDS BotConfig]))
     = Some (Exn IOError ''PermissionError'' ''Permission denied'')"
    by (simp add: append_row_def denied_io_def)
  from write_row_swallows_exceptions[OF h] h show ?thesis
    by (simp add: file_rows_def)
qed

text \<open>
  C8, as the code has it. Constructing the writer on an existing file changes nothing
  and writes no header. A write whose body does not raise appends exactly the one row
  of its dictionary; a write whose body raises leaves the rows as they were. On a
  missing file, an initialisation that does not raise leaves a file holding the header
  alone.
\<close>

theorem writer_initialisation_idempotent:
  "initialize_file fieldnames io (Some rows) = ([], Some rows, None)
   \<and> (snd (append_row fieldnames io' d (Some rows)) = None \<longrightarrow>
        (\<exists>r. dict_to_list fieldnames d = Inr r
              \<and> write_row fieldnames io' d (Some rows) = ([], Some (rows @ [r]))))
   \<and> (snd (append_row fieldnames io' d (Some rows)) \<noteq> None \<longrightarrow>
        snd (write_row fieldnames io' d (Some rows)) = Some rows)
   \<and> (snd (snd (initialize_file fieldnames io None)) = None \<longrightarrow>
        initialize_file fieldnames io None = ([], Some [fieldnames], None))"
  by (auto simp: initialize_file_def write_row_def append_row_def file_rows_def
      split: option.splits sum.splits prod.splits)

theorem writer_initialisation_idempotent_witness:
  "initialize_file (CSV_FIELDS BotConfig) healthy_io (Some [CSV_FIELDS BotConfig])
     = ([], Some [CSV_FIELDS BotConfig], None)
   \<and> snd (append_row (CSV_FIELDS BotConfig) healthy_io sample_row (Some [CSV_FIELDS BotConfig])) = None
   \<and> length (file_rows (snd (write_row (CSV_FIELDS BotConfig) healthy_io sample_row
                                (Some [CSV_FIELDS BotConfig])))) = 2
   \<and> snd (snd (initialize_file (CSV_FIELDS BotConfig) healthy_io None)) = None
   \<and> initialize_file (CSV_FIELDS BotConfig) healthy_io None = ([], Some [CSV_FIELDS BotConfig], None)"
proof -
  have h1: "snd (append_row (CSV_FIELDS BotConfig) healthy_io sample_row (Some [CSV_FIELDS BotConfig])) = None"
    by (simp add: append_row_def healthy_io_def dict_to_list_def sample_row_def outcome_row_def
        BotConfig_def)
  have h2: "snd (snd (initialize_file (CSV_FIELDS BotConfig) healthy_io None)) = None"
    by (simp add: initialize_file_def healthy_io_def)
  from writer_initialisation_idempotent
         [of "CSV_FIELDS BotConfig" healthy_io "[CSV_FIELDS BotConfig]" healthy_io sample_row]
       h1 h2
  show ?thesis by (auto simp: file_rows_def)
qed

text \<open>
  The claim as stated, that every write after the construction appends exactly one
  row, fails when the file cannot be opened: the write returns and the file still
  holds the header alone.
\<close>

theorem write_row_appends_nothing_counterexample:
  "file_rows (snd (write_row (CSV_FIELDS BotConfig) denied_io sample_row (Some [CSV_FIELDS BotConfig])))
     = [CSV_FIELDS BotConfig]
   \<and> length (file_rows (snd (write_row (CSV_FIELDS BotConfig) denied_io sample_row
                                (Some [CSV_FIELDS BotConfig]))))
     \<noteq> Suc (length [CSV_FIELDS BotConfig])"
  by (simp add: write_row_def append_row_def denied_io_def file_rows_def)

section \<open>Properties of the navigation retry loop\<close>

lemma gotos_append: "gotos (xs @ ys) = gotos xs @ gotos ys"
  by (induction xs rule: gotos.induct) simp_all

lemma sleeps_append: "sleeps (xs @ ys) = sleeps xs @ sleeps ys"
  by (induction xs rule: sleeps.induct) simp_all

lemma goto_attempt_trace:
  "gotos (fst (goto_attempt w n)) = [n] \<and> sleeps (fst (goto_attempt w n)) = []"
  by (simp add: goto_attempt_def optimize_loaded_page_def split: option.splits)

lemma goto_handler_trace:
  "gotos (goto_handler w n e) = []
   \<and> sleeps (goto_handler w n e) =
       [if exn_class e = PlaywrightTimeoutError then real_of_int (backoff n) + jitter w n
        else 1 + jitter w n]"
  by (simp add: goto_handler_def)

lemma goto_loop_all_fail:
  "list_all (goto_fails w) [a..<a + k] \<Longrightarrow>
     snd (goto_loop w a k) = False
     \<and> gotos (fst (goto_loop w a k)) = [a..<a + k]
     \<and> sleeps (fst (goto_loop w a k)) =
         map (\<lambda>n. if timed_out w n then real_of_int (backoff n) + jitter w n else 1 + jitter w n)
           [a..<a + k]"
proof (induction k arbitrary: a)
  case 0
  then show ?case by simp
next
  case (Suc k)
  have up: "[a..<a + Suc k] = a # [Suc a..<Suc a + k]"
    by (simp add: upt_rec)
  from Suc.prems[unfolded up]
  have f: "goto_fails w a" and rest: "list_all (goto_fails w) [Suc a..<Suc a + k]"
    by simp_all
  from f obtain e where e: "snd (goto_attempt w a) = Some e"
    by (auto simp: goto_fails_def)
  then obtain evs where ga: "goto_attempt w a = (evs, Some e)"
    by (cases "goto_attempt w a") simp
  from e have t: "timed_out w a = (exn_class e = PlaywrightTimeoutError)"
    by (simp add: timed_out_def)
  from goto_attempt_trace[of w a] ga have tr: "gotos evs = [a]" "sleeps evs = []" by simp_all
  note ih = Suc.IH[OF rest]
  obtain evs' r where gl: "goto_loop w (Suc a) k = (evs', r)"
    by (cases "goto_loop w (Suc a) k") simp
  with ih have ih': "r = False" "gotos evs' = [Suc a..<Suc a + k]"
    "sleeps evs' = map (\<lambda>n. if timed_out w n then real_of_int (backoff n) + jitter w n else 1 + jitter w n)
           [Suc a..<Suc a + k]"
    by simp_all
  show ?case
    unfolding up
    by (simp add: ga gl gotos_append sleeps_append goto_handler_trace tr ih' t)
qed

lemma backoff_mono: "m \<le> n \<Longrightarrow> backoff m \<le> backoff n"
  by (simp add: backoff_def)

lemma sorted_backoffs: "sorted (map backoff (filter P [a..<b]))"
proof -
  have "sorted (filter P [a..<b])" by (simp add: sorted_wrt_filter)
  then show ?thesis
    by (simp add: sorted_map sorted_wrt_iff_nth_less backoff_mono)
qed

lemma sleeps_sorted_when_all_time_out:
  assumes "\<forall>n. 0 \<le> jitter w n \<and> jitter w n \<le> 1 / 2" and "m \<le> 4"
  shows "sorted (map (\<lambda>n. real_of_int (backoff n) + jitter w n) [1..<Suc m])"
proof -
  have step: "real_of_int (backoff x) + jitter w x \<le> real_of_int (backoff y) + jitter w y"
    if "x < y" "y \<in> set [1..<Suc m]" for x y
  proof -
    from that assms(2) have "y \<le> 4" by auto
    with that(1) have "backoff x + 2 \<le> backoff y" by (simp add: backoff_def)
    then have "real_of_int (backoff x) + 2 \<le> real_of_int (backoff y)" by linarith
    moreover from assms(1) have "jitter w x \<le> 1 / 2" "0 \<le> jitter w y" by simp_all
    ultimately show ?thesis by simp
  qed
  have "sorted_wrt (<) [1..<Suc m]" by (rule sorted_wrt_upt)
  then have "sorted_wrt (\<lambda>x y. real_of_int (backoff x) + jitter w x \<le> real_of_int (backoff y) + jitter w y)
      [1..<Suc m]"
    by (rule sorted_wrt_mono_rel[rotated]) (use step in blast)
  then show ?thesis by (simp only: sorted_map)
qed

lemma sleeps_less_jitter:
  "map2 (\<lambda>t n. t - jitter w n) (map (\<lambda>n. real_of_int (backoff n) + jitter w n) xs) xs
     = map (\<lambda>n. real_of_int (backoff n)) xs"
  by (induction xs) simp_all

lemma sorted_real_backoffs: "sorted (map (\<lambda>n. real_of_int (backoff n)) [a..<b])"
proof -
  have "sorted_wrt (<) [a..<b]" by (rule sorted_wrt_upt)
  then have "sorted_wrt (\<lambda>x y. real_of_int (backoff x) \<le> real_of_int (backoff y)) [a..<b]"
    by (rule sorted_wrt_mono_rel[rotated]) (simp add: backoff_mono)
  then show ?thesis by (simp only: sorted_map)
qed

text \<open>
  C3, as the code has it. When every page load fails, \<^verbatim>\<open>robust_goto\<close> returns
  \<^verbatim>\<open>False\<close> (its result is a Boolean, no exception leaves it) after exactly
  \<^verbatim>\<open>MAX_NAV_RETRIES\<close> loads, numbered 1, 2, ...; after the n-th load it sleeps
  \<open>min (2 * n) 8\<close> seconds plus the jitter when the load timed out and one second plus
  the jitter otherwise. With the jitter between 0 and 0.5 every sleep is between 1 and
  8.5 seconds. When every load timed out, the sleeps less their jitter never decrease;
  when moreover there are at most four loads (three by default), the sleeps
  themselves, jitter included, never decrease.
\<close>

theorem robust_goto_all_fail:
  assumes "list_all (goto_fails w) [1..<Suc (nat (MAX_NAV_RETRIES cfg))]"
    and "\<forall>n. 0 \<le> jitter w n \<and> jitter w n \<le> 1 / 2"
  shows "snd (robust_goto cfg w) = False
    \<and> gotos (fst (robust_goto cfg w)) = [1..<Suc (nat (MAX_NAV_RETRIES cfg))]
    \<and> sleeps (fst (robust_goto cfg w)) =
        map (\<lambda>n. if timed_out w n then real_of_int (min (2 * int n) 8) + jitter w n
                  else 1 + jitter w n)
          [1..<Suc (nat (MAX_NAV_RETRIES cfg))]
    \<and> list_all (\<lambda>t. 1 \<le> t \<and> t \<le> 8.5) (sleeps (fst (robust_goto cfg w)))
    \<and> (list_all (timed_out w) [1..<Suc (nat (MAX_NAV_RETRIES cfg))]
         \<longrightarrow> sorted (map2 (\<lambda>t n. t - jitter w n) (sleeps (fst (robust_goto cfg w)))
                        [1..<Suc (nat (MAX_NAV_RETRIES cfg))]))
    \<and> (list_all (timed_out w) [1..<Suc (nat (MAX_NAV_RETRIES cfg))] \<and> MAX_NAV_RETRIES cfg \<le> 4
         \<longrightarrow> sorted (sleeps (fst (robust_goto cfg w))))"
proof -
  let ?m = "nat (MAX_NAV_RETRIES cfg)"
  have up: "[1..<Suc ?m] = [1..<1 + ?m]" by simp
  from goto_loop_all_fail[of w 1 ?m] assms(1)
  have a: "snd (robust_goto cfg w) = False"
    and b: "gotos (fst (robust_goto cfg w)) = [1..<Suc ?m]"
    and c: "sleeps (fst (robust_goto cfg w)) =
        map (\<lambda>n. if timed_out w n then real_of_int (backoff n) + jitter w n else 1 + jitter w n)
          [1..<Suc ?m]"
    unfolding robust_goto_def up by simp_all
  define f where
    "f = (\<lambda>n. if timed_out w n then real_of_int (backoff n) + jitter w n else 1 + jitter w n)"
  have bound: "1 \<le> f n \<and> f n \<le> 8.5" if "1 \<le> n" for n
  proof -
    from assms(2) have j: "0 \<le> jitter w n" "jitter w n \<le> 1 / 2" by simp_all
    from that have "2 \<le> backoff n" "backoff n \<le> 8" by (simp_all add: backoff_def)
    then have "2 \<le> real_of_int (backoff n)" "real_of_int (backoff n) \<le> 8" by linarith+
    with j show ?thesis by (simp add: f_def)
  qed
  have d: "list_all (\<lambda>t. 1 \<le> t \<and> t \<le> 8.5) (sleeps (fst (robust_goto cfg w)))"
    unfolding c f_def[symmetric] list_all_iff
  proof
    fix t assume "t \<in> set (map f [1..<Suc ?m])"
    then obtain n where "1 \<le> n" and "t = f n" by auto
    with bound[of n] show "1 \<le> t \<and> t \<le> 8.5" by blast
  qed
  have eq: "map f [1..<Suc ?m] = map (\<lambda>n. real_of_int (backoff n) + jitter w n) [1..<Suc ?m]"
    if all: "list_all (timed_out w) [1..<Suc ?m]"
  proof (rule map_cong[OF refl])
    fix n assume "n \<in> set [1..<Suc ?m]"
    with all have "timed_out w n" unfolding list_all_iff by blast
    then show "f n = real_of_int (backoff n) + jitter w n" by (simp add: f_def)
  qed
  have e: "sorted (map2 (\<lambda>t n. t - jitter w n) (sleeps (fst (robust_goto cfg w))) [1..<Suc ?m])"
    if all: "list_all (timed_out w) [1..<Suc ?m]"
    unfolding c f_def[symmetric] eq[OF all] sleeps_less_jitter by (rule sorted_real_backoffs)
  have g: "sorted (sleeps (fst (robust_goto cfg w)))"
    if all: "list_all (timed_out w) [1..<Suc ?m]" and few: "MAX_NAV_RETRIES cfg \<le> 4"
  proof -
    from few have "?m \<le> 4" by simp
    from sleeps_sorted_when_all_time_out[OF assms(2) this] show ?thesis
      unfolding c f_def[symmetric] eq[OF all] .
  qed
  from a b c d e g show ?thesis
    by (simp add: backoff_def)
qed

lemma upt_1_4: "[1..<Suc (nat (MAX_NAV_RETRIES BotConfig))] = [1, 2, 3]"
  by (simp add: BotConfig_def upt_rec)

theorem robust_goto_all_fail_witness:
  "list_all (goto_fails offline_world) [1..<Suc (nat (MAX_NAV_RETRIES BotConfig))]
   \<and> snd (robust_goto BotConfig offline_world) = False
   \<and> gotos (fst (robust_goto BotConfig offline_world)) = [1, 2, 3]
   \<and> sleeps (fst (robust_goto BotConfig offline_world)) = [2.25, 4.25, 6.25]
   \<and> sorted (sleeps (fst (robust_goto BotConfig offline_world)))"
proof -
  have g: "goto_attempt offline_world n =
      ([Call (Goto n)], Some (Exn PlaywrightTimeoutError ''TimeoutError'' ''Timeout 45000ms exceeded.''))" for n
    by (simp add: goto_attempt_def offline_world_def quiet_world_def)
  have h1: "list_all (goto_fails offline_world) [1..<Suc (nat (MAX_NAV_RETRIES BotConfig))]"
    unfolding upt_1_4 by (simp add: goto_fails_def g)
  have h2: "\<forall>n. 0 \<le> jitter offline_world n \<and> jitter offline_world n \<le> 1 / 2"
    by (simp add: offline_world_def quiet_world_def)
  have j: "jitter offline_world n = 1 / 4" for n
    by (simp add: offline_world_def quiet_world_def)
  from robust_goto_all_fail[OF h1 h2] h1 show ?thesis
    unfolding upt_1_4 by (simp add: timed_out_def g j)
qed

text \<open>
  The claim as stated has the sleeps of successive failed loads never decreasing. With
  the default three loads, a network error at the second load between two time-outs
  gives the sleeps 2.25, 1.25 and 6.25 seconds. With five loads that all time out, a
  jitter of 0.5 after the fourth and of 0 after the fifth gives 8.5 and then 8 seconds.
\<close>

theorem robust_goto_sleeps_decrease_counterexample:
  "list_all (goto_fails mixed_failure_world) [1..<Suc (nat (MAX_NAV_RETRIES BotConfig))]
   \<and> snd (robust_goto BotConfig mixed_failure_world) = False
   \<and> sleeps (fst (robust_goto BotConfig mixed_failure_world)) = [2.25, 1.25, 6.25]
   \<and> \<not> sorted (sleeps (fst (robust_goto BotConfig mixed_failure_world)))
   \<and> list_all (timed_out late_jitter_world) [1..<Suc (nat (MAX_NAV_RETRIES five_retries))]
   \<and> sleeps (fst (robust_goto five_retries late_jitter_world)) = [2, 4, 6, 8.5, 8]
   \<and> \<not> sorted (sleeps (fst (robust_goto five_retries late_jitter_world)))"
proof -
  have m: "goto_attempt mixed_failure_world n =
      ([Call (Goto n)],
       Some (if n = 2 then Exn OtherException ''Error'' ''net::ERR_CONNECTION_RESET''
             else Exn PlaywrightTimeoutError ''TimeoutError'' ''Timeout 45000ms exceeded.''))" for n
    by (simp add: goto_attempt_def mixed_failure_world_def quiet_world_def)
  have l: "goto_attempt late_jitter_world n =
      ([Call (Goto n)], Some (Exn PlaywrightTimeoutError ''TimeoutError'' ''Timeout 45000ms exceeded.''))" for n
    by (simp add: goto_attempt_def late_jitter_world_def offline_world_def quiet_world_def)
  have jm: "jitter mixed_failure_world n = 1 / 4" for n
    by (simp add: mixed_failure_world_def quiet_world_def)
  have jl: "jitter late_jitter_world n = (if n = 4 then 1 / 2 else 0)" for n
    by (simp add: late_jitter_world_def offline_world_def)
  have five: "[1..<Suc (nat (MAX_NAV_RETRIES five_retries))] = [1, 2, 3, 4, 5]"
    by (simp add: five_retries_def BotConfig_def upt_rec)
  have s1: "sleeps (fst (robust_goto BotConfig mixed_failure_world)) = [2.25, 1.25, 6.25]"
    by (simp add: robust_goto_def BotConfig_def numeral_3_eq_3 m jm goto_handler_def backoff_def)
  have s2: "sleeps (fst (robust_goto five_retries late_jitter_world)) = [2, 4, 6, 8.5, 8]"
    by (simp add: robust_goto_def five_retries_def BotConfig_def eval_nat_numeral l jl
        goto_handler_def backoff_def)
  have r1: "snd (robust_goto BotConfig mixed_failure_world) = False"
    by (simp add: robust_goto_def BotConfig_def numeral_3_eq_3 m)
  show ?thesis
    unfolding s1 s2 upt_1_4 five
    by (simp add: r1 goto_fails_def timed_out_def m l)
qed

section \<open>Properties of the form\<close>







section \<open>Where the output writer is invoked\<close>

lemma rows_written_append: "rows_written (xs @ ys) = rows_written xs @ rows_written ys"
  by (induction xs rule: rows_written.induct) simp_all

lemma rows_written_map_Call: "rows_written (map Call as) = []"
  by (induction as) simp_all

lemma attempt_all_no_write: "rows_written (fst (attempt_all f as)) = []"
  by (induction as) (auto split: option.splits prod.splits)

lemma launch_no_write: "rows_written (fst (launch w site bm)) = []"
  by (simp add: launch_def split: option.splits)

lemma shutdown_no_write: "rows_written (fst (shutdown w site bm)) = []"
  by (simp add: shutdown_def split: option.splits)

lemma setup_request_blocking_no_write: "rows_written (fst (setup_request_blocking w site c)) = []"
  by (simp add: setup_request_blocking_def split: option.splits)

lemma new_context_no_write: "rows_written (fst (new_context w bm)) = []"
proof -
  obtain e1 b1 where s: "shutdown w (Suc 0) bm = (e1, b1)" by (meson surj_pair)
  obtain e2 b2 r2 where l: "launch w (Suc 0) b1 = (e2, b2, r2)" by (metis surj_pair)
  have "rows_written e1 = []" using shutdown_no_write[of w "Suc 0" bm] s by simp
  moreover have "rows_written e2 = []" using launch_no_write[of w "Suc 0" b1] l by simp
  ultimately show ?thesis
    by (simp add: new_context_def s l setup_request_blocking_def rows_written_append
        split: option.splits)
qed

lemma goto_attempt_no_write: "rows_written (fst (goto_attempt w n)) = []"
  by (simp add: goto_attempt_def optimize_loaded_page_def split: option.splits)

lemma goto_loop_no_write: "rows_written (fst (goto_loop w a k)) = []"
proof (induction k arbitrary: a)
  case 0
  then show ?case by simp
next
  case (Suc k)
  obtain evs r where g: "goto_attempt w a = (evs, r)" by (cases "goto_attempt w a") simp
  obtain evs' r' where l: "goto_loop w (Suc a) k = (evs', r')" by (cases "goto_loop w (Suc a) k") simp
  have "rows_written evs = []" using goto_attempt_no_write[of w a] g by simp
  moreover have "rows_written evs' = []" using Suc.IH[of "Suc a"] l by simp
  ultimately show ?case
    by (simp add: g l rows_written_append goto_handler_def split: option.splits)
qed

lemma navigate_no_write: "rows_written (fst (navigate cfg w)) = []"
  by (simp add: navigate_def robust_goto_def goto_loop_no_write)

lemma close_popup_no_write: "rows_written (close_popup w i) = []"
  by (simp add: close_popup_def split: option.splits)

lemma close_common_popups_no_write: "rows_written (close_common_popups w) = []"
proof -
  have "rows_written (concat (map (close_popup w) is)) = []" for "is"
    by (induction "is") (simp_all add: rows_written_append close_popup_no_write)
  then show ?thesis by (simp add: close_common_popups_def)
qed

lemma select_country_no_write: "rows_written (fst (select_country w c)) = []"
proof -
  obtain e1 r1 where a1: "attempt_all (fails w)
             ([Click CountryInput, FillText CountryInput []] @ type_chars CountryInput c
              @ [WaitVisible (CountryOption c), Click (CountryOption c)]) = (e1, r1)"
    by (meson surj_pair)
  obtain e2 r2 where a2: "attempt_all (fails w) [ClickForScript CountryInput, EvaluateCountryScript] = (e2, r2)"
    by (meson surj_pair)
  have "rows_written e1 = []" using attempt_all_no_write[of "fails w"] a1 by (metis fst_conv)
  moreover have "rows_written e2 = []" using attempt_all_no_write[of "fails w"] a2 by (metis fst_conv)
  ultimately show ?thesis
    unfolding select_country_def select_country_by_typing_def select_country_by_js_def a1 a2
    by (simp add: rows_written_append split: option.splits)
qed

lemma fill_form_no_write: "rows_written (fst (fill_form w d)) = []"
proof -
  obtain e1 r1 where s: "select_country w (country d) = (e1, r1)" by (meson surj_pair)
  obtain e2 r2 where a: "attempt_all (fails w) (form_fields d) = (e2, r2)" by (meson surj_pair)
  have "rows_written e1 = []" using select_country_no_write[of w "country d"] s by simp
  moreover have "rows_written e2 = []" using attempt_all_no_write[of "fails w" "form_fields d"] a by simp
  ultimately show ?thesis
    by (simp add: fill_form_def s a rows_written_append close_common_popups_no_write
        split: option.splits)
qed

lemma submit_form_no_write: "rows_written (fst (submit_form w)) = []"
  by (simp add: submit_form_def split: option.splits)

lemma wait_for_page_no_write: "rows_written (fst (wait_for_page w)) = []"
  by (simp add: wait_for_page_def split: option.splits)

lemma submit_phone_no_write: "rows_written (fst (submit_phone w p)) = []"
proof -
  obtain e r where a: "attempt_all (fails w) (phone_steps p) = (e, r)"
    by (meson surj_pair)
  have "rows_written e = []" using attempt_all_no_write[of "fails w"] a by (metis fst_conv)
  then show ?thesis
    unfolding submit_phone_def a by (simp add: rows_written_append split: option.splits)
qed

lemma post_submit_no_write: "rows_written (fst (post_submit cfg w d)) = []"
proof (cases "phone_given d")
  case True
  obtain e r where wp: "wait_for_page w = (e, r)" by (meson surj_pair)
  obtain e2 t where sp: "submit_phone w (phone_or_empty d) = (e2, t)" by (meson surj_pair)
  have "rows_written e = []" using wait_for_page_no_write[of w] wp by simp
  moreover have "rows_written e2 = []" using submit_phone_no_write[of w "phone_or_empty d"] sp by simp
  ultimately show ?thesis
    by (simp add: post_submit_def True wp sp rows_written_append split: sum.splits)
next
  case False
  then show ?thesis
    by (simp add: post_submit_def split: option.splits)
qed

lemma pause_or_continue_no_write: "rows_written (fst (pause_or_continue cfg w)) = []"
  by (simp add: pause_or_continue_def split: option.splits)

lemma flow_no_write: "rows_written (fst (flow cfg w d)) = []"
proof -
  obtain e1 r1 where n: "navigate cfg w = (e1, r1)" by (meson surj_pair)
  obtain e2 r2 where f: "fill_form w d = (e2, r2)" by (meson surj_pair)
  obtain e3 r3 where s: "submit_form w = (e3, r3)" by (meson surj_pair)
  obtain e4 t4 r4 where p: "post_submit cfg w d = (e4, t4, r4)" by (metis surj_pair)
  obtain e5 r5 where k: "pause_or_continue cfg w = (e5, r5)" by (meson surj_pair)
  have "rows_written e1 = []" using navigate_no_write[of cfg w] n by simp
  moreover have "rows_written e2 = []" using fill_form_no_write[of w d] f by simp
  moreover have "rows_written e3 = []" using submit_form_no_write[of w] s by simp
  moreover have "rows_written e4 = []" using post_submit_no_write[of cfg w d] p by simp
  moreover have "rows_written e5 = []" using pause_or_continue_no_write[of cfg w] k by simp
  ultimately show ?thesis
    by (simp add: flow_def n f s p k rows_written_append split: option.splits)
qed

lemma try_body_no_write: "rows_written (fst (try_body cfg w d bm)) = []"
proof -
  obtain e1 b1 r1 where n: "new_context w bm = (e1, b1, r1)" by (metis surj_pair)
  obtain e2 t2 r2 where f: "flow cfg w d = (e2, t2, r2)" by (metis surj_pair)
  have "rows_written e1 = []" using new_context_no_write[of w bm] n by simp
  moreover have "rows_written e2 = []" using flow_no_write[of cfg w d] f by simp
  ultimately show ?thesis
    by (simp add: try_body_def n f rows_written_append split: option.splits sum.splits)
qed

lemma handler_no_write: "rows_written (fst (handler w bm notes e)) = []"
proof -
  obtain e1 b1 where s: "shutdown w 2 bm = (e1, b1)" by (meson surj_pair)
  obtain e2 b2 r2 where l: "launch w 2 b1 = (e2, b2, r2)" by (metis surj_pair)
  have "rows_written e1 = []" using shutdown_no_write[of w 2 bm] s by simp
  moreover have "rows_written e2 = []" using launch_no_write[of w 2 b1] l by simp
  ultimately show ?thesis
    by (simp add: handler_def s l rows_written_append split: option.splits)
qed

lemma write_row_no_write: "rows_written (fst (write_row fn io d f)) = []"
  by (simp add: write_row_def split: prod.splits option.splits)

lemma close_context_no_write: "rows_written (close_context w) = []"
  by (simp add: close_context_def split: option.splits)

text \<open>
  The one row of an attempt: \<^verbatim>\<open>run_single_account\<close> hands the writer exactly one row,
  whose notes are those the handler leaves when the body raised and those of the body
  otherwise.
\<close>

lemma run_single_account_row:
  assumes "try_body cfg w (generate_account_data (gen w) ph) (manager st) = (b_evs, bm1, ctx, notes, res)"
  shows "rows_written (fst (run_single_account cfg w ph st)) =
     [outcome_row (generate_account_data (gen w) ph)
        (case res of Returned b \<Rightarrow> notes | Raised e \<Rightarrow> fst (snd (snd (handler w bm1 notes e))))]"
proof -
  let ?d = "generate_account_data (gen w) ph"
  have b: "rows_written b_evs = []" using try_body_no_write[of cfg w ?d "manager st"] assms by simp
  show ?thesis
  proof (cases res)
    case (Returned x)
    obtain we f' where wr: "write_row (CSV_FIELDS cfg) (csv w) (outcome_row ?d notes) (out_file st) = (we, f')"
      by (meson surj_pair)
    have "rows_written we = []" using write_row_no_write wr by (metis fst_conv)
    then show ?thesis
      by (simp add: run_single_account_def Let_def assms Returned wr rows_written_append b
          close_context_no_write)
  next
    case (Raised e)
    obtain h_evs bm2 notes2 r where h: "handler w bm1 notes e = (h_evs, bm2, notes2, r)"
      by (metis surj_pair)
    have hh: "rows_written h_evs = []" using handler_no_write[of w bm1 "notes" e] h by simp
    obtain we f' where wr: "write_row (CSV_FIELDS cfg) (csv w) (outcome_row ?d notes2) (out_file st) = (we, f')"
      by (meson surj_pair)
    have "rows_written we = []" using write_row_no_write wr by (metis fst_conv)
    then show ?thesis
      by (cases r) (simp_all add: run_single_account_def Let_def assms Raised h wr rows_written_append b hh
          close_context_no_write)
  qed
qed

section \<open>Evaluating the sample inputs\<close>

lemmas world_defs = quiet_world_def healthy_io_def sample_draws_def
  initial_state_def BotConfig_def

lemmas flow_defs = run_single_account_def try_body_def flow_def navigate_def robust_goto_def
  goto_attempt_def optimize_loaded_page_def fill_form_def select_country_def
  select_country_by_typing_def select_country_by_js_def close_common_popups_def close_popup_def
  form_fields_def submit_form_def post_submit_def wait_for_page_def submit_phone_def
  phone_steps_def pause_or_continue_def keep_open_def handler_def browser_closed_def
  new_context_def setup_request_blocking_def launch_def shutdown_def close_context_def
  write_row_def append_row_def dict_to_list_def file_rows_def outcome_row_def
  generate_account_data_def phone_given_def phone_or_empty_def type_chars_def

section \<open>One row for each attempt of a batch\<close>

lemma run_single_account_one_row:
  "length (rows_written (fst (run_single_account cfg w ph st))) = 1"
proof -
  obtain b_evs bm1 ctx n res where
    "try_body cfg w (generate_account_data (gen w) ph) (manager st) = (b_evs, bm1, ctx, n, res)"
    by (metis surj_pair)
  from run_single_account_row[OF this] show ?thesis by simp
qed

lemma run_single_account_index:
  "account_index (fst (snd (run_single_account cfg w ph st))) = Suc (account_index st)"
  by (simp add: run_single_account_def Let_def split: prod.splits outcome.splits option.splits)

lemma run_loop_rows:
  "length (rows_written (fst (run_loop cfg ws ps st)))
     = account_index (fst (snd (run_loop cfg ws ps st))) - account_index st
   \<and> account_index st \<le> account_index (fst (snd (run_loop cfg ws ps st)))
   \<and> account_index (fst (snd (run_loop cfg ws ps st))) \<le> account_index st + length ps
   \<and> (snd (snd (run_loop cfg ws ps st)) = Completed \<longrightarrow>
        account_index (fst (snd (run_loop cfg ws ps st))) = account_index st + length ps)"
proof (induction ps arbitrary: st)
  case Nil
  then show ?case by simp
next
  case (Cons p ps)
  obtain evs st1 res where r: "run_single_account cfg (ws (account_index st)) (Some p) st = (evs, st1, res)"
    by (metis surj_pair)
  have one: "length (rows_written evs) = 1"
    using run_single_account_one_row[of cfg "ws (account_index st)" "Some p" st] r by simp
  have idx: "account_index st1 = Suc (account_index st)"
    using run_single_account_index[of cfg "ws (account_index st)" "Some p" st] r by simp
  show ?case
  proof (cases res)
    case (Raised e)
    then show ?thesis by (simp add: r one idx)
  next
    case (Returned b)
    show ?thesis
    proof (cases b)
      case False
      then show ?thesis by (simp add: r Returned one idx rows_written_append)
    next
      case True
      obtain evs2 st2 r2 where l: "run_loop cfg ws ps st1 = (evs2, st2, r2)"
        by (metis surj_pair)
      from Cons.IH[of st1] l idx
      have "length (rows_written evs2) = account_index st2 - Suc (account_index st)"
        "Suc (account_index st) \<le> account_index st2"
        "account_index st2 \<le> Suc (account_index st) + length ps"
        "r2 = Completed \<longrightarrow> account_index st2 = Suc (account_index st) + length ps"
        by simp_all
      then show ?thesis by (simp add: r Returned True l one rows_written_append)
    qed
  qed
qed

text \<open>
  C1, as the code has it. In every batch run the rows handed to the output writer are
  as many as the attempts run (each attempt raises \<^verbatim>\<open>account_index\<close> by one and hands
  over exactly one row, on every exit path). With an empty queue that is one. With a
  non-empty queue it is at most the queue length, and the queue length when the loop
  runs to its end.
\<close>

theorem run_rows_equal_attempts:
  "length (rows_written (fst (run_single_account cfg w ph st0))) = 1
   \<and> length (rows_written (fst (run cfg ws phone_numbers st)))
     = account_index (fst (snd (run cfg ws phone_numbers st))) - account_index st
   \<and> (phone_numbers = [] \<longrightarrow> length (rows_written (fst (run cfg ws phone_numbers st))) = 1)
   \<and> length (rows_written (fst (run cfg ws phone_numbers st))) \<le> max 1 (length phone_numbers)
   \<and> (phone_numbers \<noteq> [] \<and> snd (snd (run cfg ws phone_numbers st)) = Completed \<longrightarrow>
        length (rows_written (fst (run cfg ws phone_numbers st))) = length phone_numbers)"
proof (cases "phone_numbers = []")
  case True
  obtain evs st1 res where r: "run_single_account cfg (ws (account_index st)) None st = (evs, st1, res)"
    by (metis surj_pair)
  have one: "length (rows_written evs) = 1"
    using run_single_account_one_row[of cfg "ws (account_index st)" None st] r by simp
  have idx: "account_index st1 = Suc (account_index st)"
    using run_single_account_index[of cfg "ws (account_index st)" None st] r by simp
  show ?thesis
    using run_single_account_one_row[of cfg w ph st0]
    by (cases res) (simp_all add: run_def True r one idx)
next
  case False
  then have "run cfg ws phone_numbers st = run_loop cfg ws phone_numbers st"
    by (simp add: run_def)
  with run_loop_rows[of cfg ws phone_numbers st] False
    run_single_account_one_row[of cfg w ph st0]
  show ?thesis by auto
qed

theorem run_rows_equal_attempts_witness:
  "snd (snd (run BotConfig (\<lambda>i. quiet_world) [''+15551234567'', ''+15557654321''] initial_state))
     = Completed
   \<and> length (rows_written
        (fst (run BotConfig (\<lambda>i. quiet_world) [''+15551234567'', ''+15557654321''] initial_state)))
     = 2
   \<and> length (rows_written (fst (run BotConfig (\<lambda>i. quiet_world) [] initial_state))) = 1"
proof -
  have c: "snd (snd (run BotConfig (\<lambda>i. quiet_world) [''+15551234567'', ''+15557654321''] initial_state))
     = Completed"
    by (simp add: run_def flow_defs world_defs Let_def numeral_3_eq_3)
  from run_rows_equal_attempts
         [of BotConfig quiet_world None initial_state "\<lambda>i. quiet_world"
             "[''+15551234567'', ''+15557654321'']" initial_state]
       run_rows_equal_attempts
         [of BotConfig quiet_world None initial_state "\<lambda>i. quiet_world" "[]" initial_state]
       c
  show ?thesis by simp
qed

text \<open>
  The claim as stated gives the queue length as the number of attempts whenever the
  batch is not stopped by the pause on success. With the pause switched off and a queue
  of two numbers, a browser that dies in the first attempt and cannot be launched again
  ends the batch after one attempt and one row.
\<close>

theorem run_aborted_by_relaunch_counterexample:
  "\<not> keep_open BotConfig
   \<and> length (rows_written
        (fst (run BotConfig (\<lambda>i. crash_world) [''+15551234567'', ''+15557654321''] initial_state)))
     = 1
   \<and> account_index
        (fst (snd (run BotConfig (\<lambda>i. crash_world) [''+15551234567'', ''+15557654321''] initial_state)))
     = 1
   \<and> snd (snd (run BotConfig (\<lambda>i. crash_world) [''+15551234567'', ''+15557654321''] initial_state))
     = Aborted (Exn OtherException ''Error'' ''Failed to launch chromium'')"
  by (simp add: run_def flow_defs world_defs crash_world_def Let_def)

section \<open>Properties of the phone step\<close>











section \<open>The notes when the relaunch fails\<close>

text \<open>
  What the handler does to \<^verbatim>\<open>notes\<close>: when it returns, the placeholder has become the
  \<^verbatim>\<open>flow_exception\<close> tag and any other value is kept; when \<^verbatim>\<open>launch\<close> raises inside
  it, \<^verbatim>\<open>notes\<close> is left as it was.
\<close>

lemma handler_notes:
  "handler w bm n e = (evs, bm', n', r) \<Longrightarrow>
     (r = None \<longrightarrow> n' = (if n = ''init'' then ''flow_exception:'' @ type_name e else n))
     \<and> (r \<noteq> None \<longrightarrow> n' = n \<and> browser_closed e)"
  by (auto simp: handler_def split: prod.splits option.splits if_splits)

lemma one_tag_values:
  "one_tag ''nav_failed''" "one_tag ''form_fill_failed''" "one_tag ''submit_failed''"
  "one_tag ''verification_prompt_detected_no_phone''"
  "one_tag ''unknown_post_submit_state_no_phone''"
  "one_tag ''phone_input_not_found''" "one_tag ''send_code_clicked_waited_10s''"
  "one_tag (''navigated_to:'' @ u)" "one_tag (''phone_step_exception:'' @ t)"
  "one_tag (''flow_exception:'' @ t)"
  by (simp_all add: one_tag_def tag_kinds_def classification_tag_def phone_tag_def
      flow_exception_tag_def)

lemmas one_tag_simps = one_tag_values [simplified]

lemma post_submit_notes:
  "post_submit cfg w d = (evs, n, r) \<Longrightarrow> (r = None \<longrightarrow> one_tag n) \<and> (r \<noteq> None \<longrightarrow> n = ''init'')"
  by (auto simp: post_submit_def submit_phone_def wait_for_page_def one_tag_simps
      split: if_splits prod.splits sum.splits option.splits)

lemma flow_notes:
  assumes "flow cfg w d = (evs, n, res)"
  shows "one_tag n \<or> (n = ''init'' \<and> (\<exists>e. res = Raised e))"
proof -
  obtain e1 r1 where nv: "navigate cfg w = (e1, r1)" by (meson surj_pair)
  obtain e2 r2 where f: "fill_form w d = (e2, r2)" by (meson surj_pair)
  obtain e3 r3 where s: "submit_form w = (e3, r3)" by (meson surj_pair)
  obtain e4 t4 r4 where p: "post_submit cfg w d = (e4, t4, r4)" by (metis surj_pair)
  obtain e5 r5 where k: "pause_or_continue cfg w = (e5, r5)" by (meson surj_pair)
  from post_submit_notes[OF p] assms show ?thesis
    by (auto simp: flow_def nv f s p k one_tag_simps split: if_splits option.splits)
qed

lemma try_body_notes:
  assumes "try_body cfg w d bm = (evs, bm1, ctx, n, res)"
  shows "one_tag n \<or> (n = ''init'' \<and> (\<exists>e. res = Raised e))"
proof -
  obtain e1 b1 r1 where nc: "new_context w bm = (e1, b1, r1)" by (metis surj_pair)
  obtain e2 n2 r2 where f: "flow cfg w d = (e2, n2, r2)" by (metis surj_pair)
  from assms flow_notes[OF f] show ?thesis
    by (auto simp: try_body_def nc f split: sum.splits option.splits)
qed

text \<open>
  What holds of the notes: in every attempt that returns to the loop, the one row
  handed to the writer carries notes of exactly one of the listed kinds, neither empty
  nor the placeholder.
\<close>

lemma returned_attempt_has_one_tag:
  assumes "snd (snd (run_single_account cfg w ph st)) = Returned b"
  shows "\<exists>n. rows_written (fst (run_single_account cfg w ph st))
                = [outcome_row (generate_account_data (gen w) ph) n] \<and> one_tag n"
proof -
  let ?d = "generate_account_data (gen w) ph"
  obtain b_evs bm1 ctx n res where tb: "try_body cfg w ?d (manager st) = (b_evs, bm1, ctx, n, res)"
    by (metis surj_pair)
  note row = run_single_account_row[OF tb]
  note tags = try_body_notes[OF tb]
  show ?thesis
  proof (cases res)
    case (Returned x)
    with tags have "one_tag n" by auto
    with row Returned show ?thesis by auto
  next
    case (Raised e)
    obtain h_evs bm2 n2 r where h: "handler w bm1 n e = (h_evs, bm2, n2, r)"
      by (metis surj_pair)
    have "r = None"
    proof (rule ccontr)
      assume "r \<noteq> None"
      then obtain e2 where "r = Some e2" by auto
      then have "snd (snd (run_single_account cfg w ph st)) = Raised e2"
        by (simp add: run_single_account_def Let_def tb Raised h split: prod.splits)
      with assms show False by simp
    qed
    with handler_notes[OF h] have "n2 = (if n = ''init'' then ''flow_exception:'' @ type_name e else n)"
      by simp
    with tags have "one_tag n2" by (auto simp: one_tag_simps)
    with row Raised h show ?thesis by auto
  qed
qed

text \<open>
  C2. The notes of a row are said never to be the placeholder. In the attempt below the
  new page raises an error whose message holds \<^verbatim>\<open>Target closed\<close>, so the handler shuts
  the browser down and calls \<^verbatim>\<open>launch\<close>, which raises; the assignment to \<^verbatim>\<open>notes\<close>
  that follows in the handler is skipped and the \<^verbatim>\<open>finally\<close> clause writes the row with
  the notes \<^verbatim>\<open>init\<close>.
\<close>

theorem notes_left_at_placeholder:
  "rows_written (fst (run_single_account BotConfig crash_world (Some ''+15551234567'') initial_state))
     = [[(''timestamp'', ''2024-01-01T00:00:00Z''), (''phone_used'', ''+15551234567''),
         (''email'', ''ada.lovelace42@gmail.com''),
         (''password'', generate_strong_password (password_draws sample_draws)),
         (''first_name'', ''Ada''), (''last_name'', ''Lovelace''), (''country'', ''Egypt''),
         (''notes'', ''init'')]]"
  by (simp add: flow_defs world_defs crash_world_def Let_def)

section \<open>Recovery from a closed browser\<close>








section \<open>Properties of context creation\<close>






text \<open>
  The retry of the creation passes the viewport alone: the context it returns has no
  user agent set, unlike the context of the first try.
\<close>

lemma new_context_retry_without_user_agent:
  "new_context flaky_context_world (manager initial_state)
     = ([Call (BrowserNewContext 1), Log ERROR ''Failed to create new context: %s'',
         Log WARNING ''Attempting to relaunch browser...'',
         Call (BrowserClose 1), Log INFO ''Browser shut down.'', Call (ChromiumLaunch 1),
         Call (BrowserNewContext 2), Call (ContextRoute 2),
         Log INFO ''Successfully created context after relaunch.''],
        \<lparr>browser = Some 2, launched = 2\<rparr>,
        Inr \<lparr>viewport = (1200, 820), java_script_enabled = None, user_agent = None,
             blocking = True\<rparr>)"
  by (simp add: new_context_def setup_request_blocking_def shutdown_def launch_def
      flaky_context_world_def world_defs)

end
